theory Spec2Isabelle
  imports Main "HOL-Library.AList" "HOL-Library.Sublist"
begin

section \<open>Dash: package lookup across repositories (src/dash/dash.py)\<close>

text \<open>
  The classes \<^verbatim>\<open>PkgRepo\<close> and \<^verbatim>\<open>RepoCollection\<close> talk to the outside through two
  collaborators: the HTTP client (\<^verbatim>\<open>requests.get\<close>) and the logger
  (\<^verbatim>\<open>logger.debug\<close>, \<^verbatim>\<open>logger.info\<close>). They are made explicit here: a \<open>world\<close> holds what
  the remote endpoints answer for each URL, the URLs requested so far and the lines logged
  so far. Every operation takes the world and returns its result together with the new
  world; a Python exception is the \<open>Inl\<close> side of a sum.

  The script block at the end of the file (lines 167 to 204) is not modelled. Its last
  statement is an \<^verbatim>\<open>else:\<close> followed by a comment and blank lines only, so the Python
  compiler rejects the file as it stands and no statement of the script runs. The
  methods of the two classes are complete, and they are modelled as they are written.
\<close>

subsection \<open>Values and exceptions\<close>

text \<open>
  What \<^verbatim>\<open>Response.json()\<close> yields. A JSON object becomes a Python dict, whose keys are
  kept in document order; numbers are never inspected by the program.
\<close>

datatype json =
    JNull
  | JBool bool
  | JNumber int
  | JString string
  | JArray "json list"
  | JObject "(string \<times> json) list"

text \<open>
  The exceptions the program can meet: \<open>RequestException\<close> is what \<^verbatim>\<open>requests.get\<close>
  raises when no response arrives (its argument tells the failures apart),
  \<open>JSONDecodeError\<close> what \<^verbatim>\<open>.json()\<close> raises on a body that is not JSON,
  \<open>TypeError\<close> what \<^verbatim>\<open>len\<close>, \<^verbatim>\<open>for\<close> and \<^verbatim>\<open>in\<close> raise on a value of the wrong kind,
  and \<open>Exception\<close> the program's own \<^verbatim>\<open>raise Exception(message)\<close>.
\<close>

datatype error =
    RequestException string
  | JSONDecodeError
  | TypeError
  | Exception string

record response =
  status_code :: int
  json_body :: "json option"

datatype level = Debug | Info

text \<open>
  \<open>remote w u\<close> is what a \<^verbatim>\<open>GET\<close> of \<open>u\<close> meets: \<open>Inr\<close> a response, or \<open>Inl\<close> the
  reason why none arrives (no connection, a timeout). It is the same at every request of
  a run: the remote state does not change while the program runs.
\<close>

record world =
  remote :: "string \<Rightarrow> string + response"
  requests :: "string list"
  logfile :: "(level \<times> string) list"

definition requests_get :: "string \<Rightarrow> world \<Rightarrow> (error + response) \<times> world" where
  "requests_get u w =
     (case remote w u of Inl m \<Rightarrow> Inl (RequestException m) | Inr resp \<Rightarrow> Inr resp,
      w\<lparr>requests := requests w @ [u]\<rparr>)"

definition response_json :: "response \<Rightarrow> error + json" where
  "response_json resp = (case json_body resp of None \<Rightarrow> Inl JSONDecodeError | Some j \<Rightarrow> Inr j)"

definition logger_debug :: "string \<Rightarrow> world \<Rightarrow> world" where
  "logger_debug m w = w\<lparr>logfile := logfile w @ [(Debug, m)]\<rparr>"

definition logger_info :: "string \<Rightarrow> world \<Rightarrow> world" where
  "logger_info m w = w\<lparr>logfile := logfile w @ [(Info, m)]\<rparr>"

subsection \<open>Python built-ins used by the program\<close>

text \<open>\<^verbatim>\<open>str(n)\<close> for a length: the decimal digits.\<close>

fun str_nat :: "nat \<Rightarrow> string" where
  "str_nat n = (if n < 10 then [''0123456789'' ! n]
                else str_nat (n div 10) @ [''0123456789'' ! (n mod 10)])"

declare str_nat.simps [simp del]

text \<open>\<^verbatim>\<open>sep.join(xs)\<close>.\<close>

fun join :: "string \<Rightarrow> string list \<Rightarrow> string" where
  "join sep [] = []"
| "join sep [x] = x"
| "join sep (x # y # ys) = x @ sep @ join sep (y # ys)"

text \<open>\<^verbatim>\<open>len(data)\<close>: defined on strings, lists and dicts only.\<close>

fun py_len :: "json \<Rightarrow> error + nat" where
  "py_len (JString s) = Inr (length s)"
| "py_len (JArray xs) = Inr (length xs)"
| "py_len (JObject kvs) = Inr (length kvs)"
| "py_len _ = Inl TypeError"

text \<open>
  \<^verbatim>\<open>for pkgName in data\<close>: a list yields its elements, a dict its keys, a string its
  characters; nothing else can be iterated.
\<close>

fun py_iter :: "json \<Rightarrow> error + json list" where
  "py_iter (JArray xs) = Inr xs"
| "py_iter (JObject kvs) = Inr (map (\<lambda>kv. JString (fst kv)) kvs)"
| "py_iter (JString s) = Inr (map (\<lambda>c. JString [c]) s)"
| "py_iter _ = Inl TypeError"

text \<open>
  \<^verbatim>\<open>term in pkgName\<close> for a string \<^verbatim>\<open>term\<close>: substring test on a string, membership
  test on a list, key test on a dict, \<^verbatim>\<open>TypeError\<close> on anything else.
\<close>

fun py_in :: "string \<Rightarrow> json \<Rightarrow> error + bool" where
  "py_in t (JString s) = Inr (sublist t s)"
| "py_in t (JArray xs) = Inr (JString t \<in> set xs)"
| "py_in t (JObject kvs) = Inr (t \<in> set (map fst kvs))"
| "py_in t _ = Inl TypeError"

subsection \<open>class PkgRepo\<close>

record PkgRepo =
  name :: string
  url :: string

definition PkgRepo_str :: "PkgRepo \<Rightarrow> string" where
  "PkgRepo_str self = ''Package Repo '' @ name self @ '' @ '' @ url self"

definition pkg_url :: "PkgRepo \<Rightarrow> string \<Rightarrow> string" where
  "pkg_url self pkg = url self @ ''/packages/'' @ pkg @ ''.json''"

definition all_url :: "PkgRepo \<Rightarrow> string" where
  "all_url self = url self @ ''/all.json''"

definition PkgRepo_exists :: "PkgRepo \<Rightarrow> string \<Rightarrow> world \<Rightarrow> (error + bool) \<times> world" where
  "PkgRepo_exists self pkg w =
     (let w1 = logger_debug (''Checking if package '' @ pkg @ '' exists in repo '' @ name self @ ''...'') w;
          (r, w2) = requests_get (pkg_url self pkg) w1
      in case r of
           Inl e \<Rightarrow> (Inl e, w2)
         | Inr resp \<Rightarrow>
             if status_code resp = 404
             then (Inr False,
                   logger_debug (''Package '' @ pkg @ '' not found in repo '' @ name self @ ''.'') w2)
             else (Inr True, w2))"

definition PkgRepo_get :: "PkgRepo \<Rightarrow> string \<Rightarrow> world \<Rightarrow> (error + json) \<times> world" where
  "PkgRepo_get self pkg w =
     (case PkgRepo_exists self pkg w of
        (Inl e, w1) \<Rightarrow> (Inl e, w1)
      | (Inr False, w1) \<Rightarrow> (Inl (Exception (''Package '' @ pkg @ '' does not exist!'')), w1)
      | (Inr True, w1) \<Rightarrow>
          (let w2 = logger_debug (''Getting package '' @ pkg @ '' from repo '' @ name self @ ''...'') w1;
               (r, w3) = requests_get (pkg_url self pkg) w2
           in case r of
                Inl e \<Rightarrow> (Inl e, w3)
              | Inr resp \<Rightarrow>
                  (case response_json resp of
                     Inl e \<Rightarrow> (Inl e, w3)
                   | Inr data \<Rightarrow>
                       (Inr data,
                        logger_debug (''Got package '' @ pkg @ '' from repo '' @ name self @ ''.'') w3))))"

text \<open>The loop of \<^verbatim>\<open>search\<close>: \<open>results\<close> is the list built so far.\<close>

fun search_loop :: "string \<Rightarrow> json list \<Rightarrow> json list \<Rightarrow> error + json list" where
  "search_loop t [] results = Inr results"
| "search_loop t (pkgName # rest) results =
     (case py_in t pkgName of
        Inl e \<Rightarrow> Inl e
      | Inr b \<Rightarrow> search_loop t rest (if b then results @ [pkgName] else results))"

definition PkgRepo_search :: "PkgRepo \<Rightarrow> string \<Rightarrow> world \<Rightarrow> (error + json list) \<times> world" where
  "PkgRepo_search self t w =
     (let w1 = logger_debug (''Searching repo '' @ name self @ '' for term '' @ t @ ''...'') w;
          (r, w2) = requests_get (all_url self) w1
      in case r of
           Inl e \<Rightarrow> (Inl e, w2)
         | Inr resp \<Rightarrow>
             (case response_json resp of
                Inl e \<Rightarrow> (Inl e, w2)
              | Inr data \<Rightarrow>
                  (case py_iter data of
                     Inl e \<Rightarrow> (Inl e, w2)
                   | Inr items \<Rightarrow>
                       (case search_loop t items [] of
                          Inl e \<Rightarrow> (Inl e, w2)
                        | Inr results \<Rightarrow>
                            (Inr results,
                             logger_debug (''Found '' @ str_nat (length results) @ '' results for term ''
                                           @ t @ '' in repo '' @ name self @ ''.'') w2)))))"

definition PkgRepo_list :: "PkgRepo \<Rightarrow> world \<Rightarrow> (error + json) \<times> world" where
  "PkgRepo_list self w =
     (let w1 = logger_debug (''Listing all packages in repo '' @ name self @ ''...'') w;
          (r, w2) = requests_get (all_url self) w1
      in case r of
           Inl e \<Rightarrow> (Inl e, w2)
         | Inr resp \<Rightarrow>
             (case response_json resp of
                Inl e \<Rightarrow> (Inl e, w2)
              | Inr data \<Rightarrow>
                  (case py_len data of
                     Inl e \<Rightarrow> (Inl e, w2)
                   | Inr n \<Rightarrow>
                       (Inr data,
                        logger_debug (''Found '' @ str_nat n @ '' packages in repo ''
                                      @ name self @ ''.'') w2))))"

subsection \<open>class RepoCollection\<close>

text \<open>
  \<^verbatim>\<open>self.repos\<close> is a Python dict: keys are unique and are iterated in the order of
  their first insertion; assigning to a key that is present replaces the value in place.
  That is an association list maintained by \<^const>\<open>AList.update\<close>.
\<close>

record RepoCollection =
  repos :: "(string \<times> PkgRepo) list"

definition RepoCollection_init :: RepoCollection where
  "RepoCollection_init = \<lparr>repos = []\<rparr>"

text \<open>Iterating the dict yields its keys, and \<^verbatim>\<open>str\<close> of a string is the string.\<close>

definition RepoCollection_str :: "RepoCollection \<Rightarrow> string" where
  "RepoCollection_str self = ''Repo Collection: '' @ join '', '' (map fst (repos self))"

definition RepoCollection_add :: "RepoCollection \<Rightarrow> PkgRepo \<Rightarrow> RepoCollection" where
  "RepoCollection_add self rp = self\<lparr>repos := AList.update (name rp) rp (repos self)\<rparr>"

text \<open>\<^verbatim>\<open>self.repos.values()\<close>\<close>

definition repos_values :: "RepoCollection \<Rightarrow> PkgRepo list" where
  "repos_values self = map snd (repos self)"

text \<open>\<^verbatim>\<open>exists\<close> returns either \<^verbatim>\<open>False\<close> or the list \<^verbatim>\<open>repoNames\<close>.\<close>

datatype exists_result = ReturnFalse | ReturnRepoNames "string list"

fun exists_loop :: "PkgRepo list \<Rightarrow> string \<Rightarrow> string list \<Rightarrow> world \<Rightarrow> (error + string list) \<times> world" where
  "exists_loop [] pkg repoNames w = (Inr repoNames, w)"
| "exists_loop (rp # rest) pkg repoNames w =
     (let w1 = logger_info (''Checking if package exists in repo '' @ name rp @ ''...'') w
      in case PkgRepo_exists rp pkg w1 of
           (Inl e, w2) \<Rightarrow> (Inl e, w2)
         | (Inr True, w2) \<Rightarrow>
             exists_loop rest pkg (repoNames @ [name rp])
               (logger_info (''Package '' @ pkg @ '' exists in repo '' @ name rp @ ''.'') w2)
         | (Inr False, w2) \<Rightarrow> exists_loop rest pkg repoNames w2)"

definition RepoCollection_exists :: "RepoCollection \<Rightarrow> string \<Rightarrow> world \<Rightarrow> (error + exists_result) \<times> world" where
  "RepoCollection_exists self pkg w =
     (case exists_loop (repos_values self) pkg [] w of
        (Inl e, w1) \<Rightarrow> (Inl e, w1)
      | (Inr repoNames, w1) \<Rightarrow>
          if length repoNames = 0
          then (Inr ReturnFalse,
                logger_info (''Package '' @ pkg @ '' does not exist in any repos.'') w1)
          else (Inr (ReturnRepoNames repoNames), w1))"

definition RepoCollection_get :: "RepoCollection \<Rightarrow> string \<Rightarrow> string \<Rightarrow> world \<Rightarrow> (error + json) \<times> world" where
  "RepoCollection_get self pkg r w =
     (case map_of (repos self) r of
        None \<Rightarrow> (Inl (Exception (''Repo '' @ r @ '' does not exist!'')), w)
      | Some rp \<Rightarrow> PkgRepo_get rp pkg w)"

fun collection_search_loop ::
  "PkgRepo list \<Rightarrow> string \<Rightarrow> (string \<times> json list) list \<Rightarrow> world \<Rightarrow> (error + (string \<times> json list) list) \<times> world" where
  "collection_search_loop [] t results w = (Inr results, w)"
| "collection_search_loop (rp # rest) t results w =
     (let w1 = logger_info (''Searching repo '' @ name rp @ '' for term '' @ t @ ''...'') w
      in case PkgRepo_search rp t w1 of
           (Inl e, w2) \<Rightarrow> (Inl e, w2)
         | (Inr found, w2) \<Rightarrow>
             collection_search_loop rest t (AList.update (name rp) found results) w2)"

definition RepoCollection_search ::
  "RepoCollection \<Rightarrow> string \<Rightarrow> world \<Rightarrow> (error + (string \<times> json list) list) \<times> world" where
  "RepoCollection_search self t w = collection_search_loop (repos_values self) t [] w"

fun collection_list_loop ::
  "PkgRepo list \<Rightarrow> (string \<times> json) list \<Rightarrow> world \<Rightarrow> (error + (string \<times> json) list) \<times> world" where
  "collection_list_loop [] results w = (Inr results, w)"
| "collection_list_loop (rp # rest) results w =
     (let w1 = logger_info (''Fetching packages in repo '' @ name rp @ ''...'') w
      in case PkgRepo_list rp w1 of
           (Inl e, w2) \<Rightarrow> (Inl e, w2)
         | (Inr data, w2) \<Rightarrow>
             collection_list_loop rest (AList.update (name rp) data results) w2)"

definition RepoCollection_list ::
  "RepoCollection \<Rightarrow> world \<Rightarrow> (error + (string \<times> json) list) \<times> world" where
  "RepoCollection_list self w = collection_list_loop (repos_values self) [] w"

text \<open>
  The collection obtained from a new one by registering a repository for each pair of a
  name and a url in turn, as the start of the script does with the configured repositories.
\<close>

definition load_repos :: "(string \<times> string) list \<Rightarrow> RepoCollection" where
  "load_repos conf_repos =
     foldl (\<lambda>c nu. RepoCollection_add c \<lparr>name = fst nu, url = snd nu\<rparr>) RepoCollection_init conf_repos"

subsection \<open>Example inputs\<close>

text \<open>
  Three repositories. \<open>A\<close> serves its catalog as a JSON array and knows \<open>foo\<close>; \<open>B\<close>
  serves its catalog as a JSON object keyed by package name, knows \<open>foo\<close> too and answers
  the lookup of \<open>bar\<close> with a server error; \<open>C\<close> cannot be reached. Every other URL is
  answered with 404.
\<close>

definition repo_A :: PkgRepo where
  "repo_A = \<lparr>name = ''A'', url = ''http://a/x''\<rparr>"

definition repo_B :: PkgRepo where
  "repo_B = \<lparr>name = ''B'', url = ''http://b/y''\<rparr>"

definition repo_C :: PkgRepo where
  "repo_C = \<lparr>name = ''C'', url = ''http://c/z''\<rparr>"

definition example_remote :: "string \<Rightarrow> string + response" where
  "example_remote u =
     (if u = ''http://a/x/all.json''
      then Inr \<lparr>status_code = 200,
                json_body = Some (JArray [JString ''foo'', JString ''foobar'', JString ''baz''])\<rparr>
      else if u = ''http://b/y/all.json''
      then Inr \<lparr>status_code = 200,
                json_body = Some (JObject [(''foo'', JObject []), (''qux'', JObject [])])\<rparr>
      else if u = ''http://a/x/packages/foo.json''
      then Inr \<lparr>status_code = 200, json_body = Some (JObject [(''name'', JString ''foo'')])\<rparr>
      else if u = ''http://b/y/packages/foo.json''
      then Inr \<lparr>status_code = 200, json_body = None\<rparr>
      else if u = ''http://b/y/packages/bar.json''
      then Inr \<lparr>status_code = 500, json_body = None\<rparr>
      else if take 10 u = ''http://c/z''
      then Inl ''connection refused''
      else Inr \<lparr>status_code = 404, json_body = None\<rparr>)"

definition example_world :: world where
  "example_world = \<lparr>remote = example_remote, requests = [], logfile = []\<rparr>"

section \<open>Basic facts about the operations\<close>

lemma requests_get_simps [simp]:
  "fst (requests_get u w) = (case remote w u of Inl m \<Rightarrow> Inl (RequestException m) | Inr resp \<Rightarrow> Inr resp)"
  "remote (snd (requests_get u w)) = remote w"
  "requests (snd (requests_get u w)) = requests w @ [u]"
  "logfile (snd (requests_get u w)) = logfile w"
  by (simp_all add: requests_get_def)

lemma logger_simps [simp]:
  "remote (logger_debug m w) = remote w" "requests (logger_debug m w) = requests w"
  "remote (logger_info m w) = remote w" "requests (logger_info m w) = requests w"
  "logfile (logger_debug m w) = logfile w @ [(Debug, m)]"
  "logfile (logger_info m w) = logfile w @ [(Info, m)]"
  by (simp_all add: logger_debug_def logger_info_def)

text \<open>The result of each repository operation is decided by the remote answers alone.\<close>

lemma fst_PkgRepo_exists:
  "fst (PkgRepo_exists self pkg w) =
     (case remote w (pkg_url self pkg) of
        Inl m \<Rightarrow> Inl (RequestException m)
      | Inr resp \<Rightarrow> Inr (status_code resp \<noteq> 404))"
  by (simp add: PkgRepo_exists_def Let_def split_beta split: sum.splits)

lemma remote_PkgRepo_exists [simp]: "remote (snd (PkgRepo_exists self pkg w)) = remote w"
  by (simp add: PkgRepo_exists_def Let_def split_beta split: sum.splits)

lemma requests_PkgRepo_exists [simp]:
  "requests (snd (PkgRepo_exists self pkg w)) = requests w @ [pkg_url self pkg]"
  by (simp add: PkgRepo_exists_def Let_def split_beta split: sum.splits)

lemma fst_PkgRepo_search:
  "fst (PkgRepo_search self t w) =
     (case remote w (all_url self) of
        Inl m \<Rightarrow> Inl (RequestException m)
      | Inr resp \<Rightarrow>
          (case json_body resp of
             None \<Rightarrow> Inl JSONDecodeError
           | Some data \<Rightarrow>
               (case py_iter data of Inl e \<Rightarrow> Inl e | Inr items \<Rightarrow> search_loop t items [])))"
  by (simp add: PkgRepo_search_def response_json_def Let_def split_beta split: sum.splits option.splits)

lemma remote_PkgRepo_search [simp]: "remote (snd (PkgRepo_search self t w)) = remote w"
  by (simp add: PkgRepo_search_def Let_def split_beta split: sum.splits)

lemma requests_PkgRepo_search [simp]:
  "requests (snd (PkgRepo_search self t w)) = requests w @ [all_url self]"
  by (simp add: PkgRepo_search_def Let_def split_beta split: sum.splits)

lemma fst_PkgRepo_list:
  "fst (PkgRepo_list self w) =
     (case remote w (all_url self) of
        Inl m \<Rightarrow> Inl (RequestException m)
      | Inr resp \<Rightarrow>
          (case json_body resp of
             None \<Rightarrow> Inl JSONDecodeError
           | Some data \<Rightarrow> (case py_len data of Inl e \<Rightarrow> Inl e | Inr n \<Rightarrow> Inr data)))"
  by (simp add: PkgRepo_list_def response_json_def Let_def split_beta split: sum.splits option.splits)

lemma remote_PkgRepo_list [simp]: "remote (snd (PkgRepo_list self w)) = remote w"
  by (simp add: PkgRepo_list_def Let_def split_beta split: sum.splits)

lemma fst_PkgRepo_get:
  "fst (PkgRepo_get self pkg w) =
     (case remote w (pkg_url self pkg) of
        Inl m \<Rightarrow> Inl (RequestException m)
      | Inr resp \<Rightarrow>
          if status_code resp = 404 then Inl (Exception (''Package '' @ pkg @ '' does not exist!''))
          else (case json_body resp of None \<Rightarrow> Inl JSONDecodeError | Some data \<Rightarrow> Inr data))"
  by (simp add: PkgRepo_get_def PkgRepo_exists_def response_json_def Let_def split_beta requests_get_def
           split: sum.splits option.splits bool.splits)

lemma search_loop_strings:
  "search_loop t (map JString ns) acc = Inr (acc @ map JString (filter (sublist t) ns))"
  by (induction ns arbitrary: acc) simp_all

lemma requests_PkgRepo_get:
  "requests (snd (PkgRepo_get self pkg w)) =
     (if fst (PkgRepo_exists self pkg w) = Inr True
      then requests w @ [pkg_url self pkg, pkg_url self pkg]
      else requests w @ [pkg_url self pkg])"
  by (simp add: PkgRepo_get_def PkgRepo_exists_def response_json_def Let_def split_beta requests_get_def
           split: sum.splits option.splits bool.splits)

lemma PkgRepo_get_not_repo_error:
  "fst (PkgRepo_get rp p w) \<noteq> Inl (Exception (''Repo '' @ r @ '' does not exist!''))"
  by (simp add: fst_PkgRepo_get split: sum.splits option.splits)

text \<open>The loop of \<^verbatim>\<open>RepoCollection.exists\<close>, one repository at a time.\<close>

lemma exists_loop_Cons:
  "exists_loop (rp # rest) pkg acc w =
     (let r = PkgRepo_exists rp pkg (logger_info (''Checking if package exists in repo '' @ name rp @ ''...'') w)
      in case fst r of
           Inl e \<Rightarrow> (Inl e, snd r)
         | Inr b \<Rightarrow>
             if b then exists_loop rest pkg (acc @ [name rp])
                        (logger_info (''Package '' @ pkg @ '' exists in repo '' @ name rp @ ''.'') (snd r))
             else exists_loop rest pkg acc (snd r))"
  by (simp add: Let_def split: prod.splits sum.splits bool.splits)

lemma fst_exists_loop_answers:
  assumes "\<forall>rp \<in> set rs. \<exists>b. fst (PkgRepo_exists rp pkg w0) = Inr b"
    and "remote w = remote w0"
  shows "fst (exists_loop rs pkg acc w) =
           Inr (acc @ map name (filter (\<lambda>rp. fst (PkgRepo_exists rp pkg w0) = Inr True) rs))"
  using assms
proof (induction rs arbitrary: acc w)
  case Nil
  then show ?case by simp
next
  case (Cons rp rest)
  let ?m = "''Checking if package exists in repo '' @ name rp @ ''...''"
  let ?r = "PkgRepo_exists rp pkg (logger_info ?m w)"
  obtain b where b: "fst (PkgRepo_exists rp pkg w0) = Inr b"
    using Cons.prems(1) by auto
  have same: "fst ?r = Inr b"
    using b Cons.prems(2) by (simp add: fst_PkgRepo_exists)
  have rest: "\<forall>rp \<in> set rest. \<exists>b. fst (PkgRepo_exists rp pkg w0) = Inr b"
    using Cons.prems(1) by simp
  show ?case
    using same b rest Cons.prems(2)
    by (simp add: exists_loop_Cons Let_def Cons.IH del: exists_loop.simps)
qed

lemma fst_exists_loop_fail:
  assumes "\<forall>q \<in> set pre. \<exists>b. fst (PkgRepo_exists q pkg w0) = Inr b"
    and "fst (PkgRepo_exists rp pkg w0) = Inl e"
    and "remote w = remote w0"
  shows "fst (exists_loop (pre @ rp # post) pkg acc w) = Inl e"
  using assms
proof (induction pre arbitrary: acc w)
  case Nil
  let ?w1 = "logger_info (''Checking if package exists in repo '' @ name rp @ ''...'') w"
  have "fst (PkgRepo_exists rp pkg ?w1) = fst (PkgRepo_exists rp pkg w0)"
    using Nil.prems(3) by (simp add: fst_PkgRepo_exists)
  with Nil.prems(2) show ?case
    by (simp add: exists_loop_Cons Let_def del: exists_loop.simps)
next
  case (Cons q pre)
  let ?w1 = "logger_info (''Checking if package exists in repo '' @ name q @ ''...'') w"
  let ?r = "PkgRepo_exists q pkg ?w1"
  let ?i = "logger_info (''Package '' @ pkg @ '' exists in repo '' @ name q @ ''.'')"
  obtain b where b: "fst (PkgRepo_exists q pkg w0) = Inr b"
    using Cons.prems(1) by auto
  have "fst ?r = fst (PkgRepo_exists q pkg w0)"
    using Cons.prems(3) by (simp add: fst_PkgRepo_exists)
  with b have here: "fst ?r = Inr b"
    by simp
  have yes: "fst (exists_loop (pre @ rp # post) pkg (acc @ [name q]) (?i (snd ?r))) = Inl e"
    using Cons.prems by (intro Cons.IH) simp_all
  have no: "fst (exists_loop (pre @ rp # post) pkg acc (snd ?r)) = Inl e"
    using Cons.prems by (intro Cons.IH) simp_all
  from here yes no show ?case
    by (simp add: exists_loop_Cons Let_def del: exists_loop.simps)
qed

lemma fst_RepoCollection_exists:
  "fst (RepoCollection_exists c p w) =
     (case fst (exists_loop (repos_values c) p [] w) of
        Inl e \<Rightarrow> Inl e
      | Inr repoNames \<Rightarrow> if repoNames = [] then Inr ReturnFalse else Inr (ReturnRepoNames repoNames))"
  by (simp add: RepoCollection_exists_def split: prod.splits sum.splits)

text \<open>The loop of \<^verbatim>\<open>RepoCollection.search\<close>: it stops at the first repository that fails.\<close>

lemma collection_search_loop_Cons:
  "collection_search_loop (rp # rest) t acc w =
     (case fst (PkgRepo_search rp t (logger_info (''Searching repo '' @ name rp @ '' for term '' @ t @ ''...'') w)) of
        Inl e \<Rightarrow> (Inl e, snd (PkgRepo_search rp t (logger_info (''Searching repo '' @ name rp @ '' for term '' @ t @ ''...'') w)))
      | Inr found \<Rightarrow>
          collection_search_loop rest t (AList.update (name rp) found acc)
            (snd (PkgRepo_search rp t (logger_info (''Searching repo '' @ name rp @ '' for term '' @ t @ ''...'') w))))"
  by (simp add: Let_def split: prod.splits sum.splits)

lemma fst_collection_search_loop_ok:
  assumes "\<forall>rp \<in> set rs. fst (PkgRepo_search rp t w0) = Inr (f rp)"
    and "remote w = remote w0"
  shows "fst (collection_search_loop rs t acc w) =
           Inr (foldl (\<lambda>m rp. AList.update (name rp) (f rp) m) acc rs)"
  using assms
proof (induction rs arbitrary: acc w)
  case Nil
  then show ?case by simp
next
  case (Cons rp rest)
  let ?w1 = "logger_info (''Searching repo '' @ name rp @ '' for term '' @ t @ ''...'') w"
  have "fst (PkgRepo_search rp t ?w1) = fst (PkgRepo_search rp t w0)"
    using Cons.prems(2) by (simp add: fst_PkgRepo_search)
  then have here: "fst (PkgRepo_search rp t ?w1) = Inr (f rp)"
    using Cons.prems(1) by simp
  have "fst (collection_search_loop rest t (AList.update (name rp) (f rp) acc)
               (snd (PkgRepo_search rp t ?w1))) =
        Inr (foldl (\<lambda>m rp. AList.update (name rp) (f rp) m) (AList.update (name rp) (f rp) acc) rest)"
    using Cons.prems by (intro Cons.IH) simp_all
  with here show ?case
    by (simp add: collection_search_loop_Cons del: collection_search_loop.simps)
qed

lemma fst_collection_search_loop_fail:
  assumes "\<forall>q \<in> set pre. \<exists>xs. fst (PkgRepo_search q t w0) = Inr xs"
    and "fst (PkgRepo_search rp t w0) = Inl e"
    and "remote w = remote w0"
  shows "fst (collection_search_loop (pre @ rp # post) t acc w) = Inl e"
  using assms
proof (induction pre arbitrary: acc w)
  case Nil
  let ?w1 = "logger_info (''Searching repo '' @ name rp @ '' for term '' @ t @ ''...'') w"
  have "fst (PkgRepo_search rp t ?w1) = fst (PkgRepo_search rp t w0)"
    using Nil.prems(3) by (simp add: fst_PkgRepo_search)
  with Nil.prems(2) show ?case
    by (simp add: collection_search_loop_Cons del: collection_search_loop.simps)
next
  case (Cons q pre)
  let ?w1 = "logger_info (''Searching repo '' @ name q @ '' for term '' @ t @ ''...'') w"
  obtain xs where xs: "fst (PkgRepo_search q t w0) = Inr xs"
    using Cons.prems(1) by auto
  have "fst (PkgRepo_search q t ?w1) = fst (PkgRepo_search q t w0)"
    using Cons.prems(3) by (simp add: fst_PkgRepo_search)
  with xs have here: "fst (PkgRepo_search q t ?w1) = Inr xs"
    by simp
  have "fst (collection_search_loop (pre @ rp # post) t (AList.update (name q) xs acc)
               (snd (PkgRepo_search q t ?w1))) = Inl e"
    using Cons.prems by (intro Cons.IH) simp_all
  with here show ?case
    by (simp add: collection_search_loop_Cons del: collection_search_loop.simps)
qed

lemma update_fresh: "k \<notin> fst ` set al \<Longrightarrow> AList.update k v al = al @ [(k, v)]"
  by (induction al) auto

lemma foldl_update_fresh:
  "distinct (map g rs) \<Longrightarrow> g ` set rs \<inter> fst ` set acc = {} \<Longrightarrow>
     foldl (\<lambda>m rp. AList.update (g rp) (f rp) m) acc rs = acc @ map (\<lambda>rp. (g rp, f rp)) rs"
proof (induction rs arbitrary: acc)
  case Nil
  then show ?case by simp
next
  case (Cons rp rs)
  have fresh: "g rp \<notin> fst ` set acc"
    using Cons.prems(2) by auto
  have "g ` set rs \<inter> fst ` set (acc @ [(g rp, f rp)]) = {}"
    using Cons.prems by auto
  with Cons.prems(1) have
    "foldl (\<lambda>m rp. AList.update (g rp) (f rp) m) (acc @ [(g rp, f rp)]) rs =
       (acc @ [(g rp, f rp)]) @ map (\<lambda>rp. (g rp, f rp)) rs"
    by (intro Cons.IH) simp_all
  then show ?case
    by (simp add: update_fresh [OF fresh])
qed

text \<open>The example collections and what their repositories answer to a search.\<close>

lemma example_values:
  "repos_values (load_repos [(''A'', ''http://a/x''), (''C'', ''http://c/z''), (''B'', ''http://b/y'')])
     = [repo_A, repo_C, repo_B]"
  "repos_values (load_repos [(''A'', ''http://a/x''), (''B'', ''http://b/y'')]) = [repo_A, repo_B]"
  by (simp_all add: load_repos_def RepoCollection_add_def RepoCollection_init_def repos_values_def
        repo_A_def repo_B_def repo_C_def)

lemma example_searches:
  "fst (PkgRepo_search repo_A ''foo'' example_world) = Inr [JString ''foo'', JString ''foobar'']"
  "fst (PkgRepo_search repo_B ''foo'' example_world) = Inr [JString ''foo'']"
  "fst (PkgRepo_search repo_C ''foo'' example_world) = Inl (RequestException ''connection refused'')"
  by (simp_all add: fst_PkgRepo_search all_url_def example_world_def example_remote_def
        repo_A_def repo_B_def repo_C_def sublist_code)

lemma search_loop_keys:
  "search_loop t (map (\<lambda>kv. JString (fst kv)) kvs) acc =
     Inr (acc @ map JString (filter (sublist t) (map fst kvs)))"
  using search_loop_strings [of t "map fst kvs" acc] by (simp add: comp_def)

text \<open>Registering repositories: entries, keys and lookups of the mapping.\<close>

lemma update_entries: "set (AList.update k v al) \<subseteq> insert (k, v) (set al)"
  by (induction al) auto

lemma add_keeps_names_step:
  "\<forall>kv \<in> set (repos c). name (snd kv) = fst kv \<Longrightarrow>
   \<forall>kv \<in> set (repos (RepoCollection_add c rp)). name (snd kv) = fst kv"
  using update_entries [of "name rp" rp "repos c"]
  by (auto simp add: RepoCollection_add_def)

lemma adds_keep_names:
  "\<forall>kv \<in> set (repos c). name (snd kv) = fst kv \<Longrightarrow>
   \<forall>kv \<in> set (repos (foldl RepoCollection_add c rps)). name (snd kv) = fst kv"
proof (induction rps arbitrary: c)
  case Nil
  then show ?case by simp
next
  case (Cons rp rps)
  have "\<forall>kv \<in> set (repos (RepoCollection_add c rp)). name (snd kv) = fst kv"
    using Cons.prems by (rule add_keeps_names_step)
  then show ?case
    using Cons.IH [of "RepoCollection_add c rp"] by simp
qed

lemma adds_keep_distinct:
  "distinct (map fst (repos c)) \<Longrightarrow> distinct (map fst (repos (foldl RepoCollection_add c rps)))"
  by (induction rps arbitrary: c) (simp_all add: RepoCollection_add_def distinct_update)

lemma lookup_after_add:
  "map_of (repos (RepoCollection_add c rp)) k = (if k = name rp then Some rp else map_of (repos c) k)"
  by (simp add: RepoCollection_add_def update_conv')

lemma find_snoc:
  "find P (xs @ [y]) = (case find P xs of Some x \<Rightarrow> Some x | None \<Rightarrow> if P y then Some y else None)"
  by (induction xs) simp_all

lemma lookup_after_adds:
  "map_of (repos (foldl RepoCollection_add c rps)) k =
     (case find (\<lambda>rp. name rp = k) (rev rps) of
        Some rp \<Rightarrow> Some rp
      | None \<Rightarrow> map_of (repos c) k)"
proof (induction rps arbitrary: c)
  case Nil
  then show ?case by simp
next
  case (Cons rp rps)
  show ?case
    by (simp add: Cons.IH lookup_after_add find_snoc split: option.splits)
qed

lemma keys_after_add:
  "map fst (repos (RepoCollection_add c rp)) =
     (if name rp \<in> set (map fst (repos c)) then map fst (repos c) else map fst (repos c) @ [name rp])"
  by (simp add: RepoCollection_add_def update_keys)

lemma remdups_drop_earlier: "x \<in> set zs \<Longrightarrow> remdups (ys @ x # zs) = remdups (ys @ zs)"
  by (induction ys) auto

lemma first_occurrences_distinct: "distinct xs \<Longrightarrow> rev (remdups (rev xs)) = xs"
  by (simp add: distinct_remdups_id)

lemma keys_after_adds:
  "distinct (map fst (repos c)) \<Longrightarrow>
     map fst (repos (foldl RepoCollection_add c rps)) =
       rev (remdups (rev (map fst (repos c) @ map name rps)))"
proof (induction rps arbitrary: c)
  case Nil
  then show ?case
    using first_occurrences_distinct [of "map fst (repos c)"] by simp
next
  case (Cons rp rps)
  have "distinct (map fst (repos (RepoCollection_add c rp)))"
    using Cons.prems by (simp add: RepoCollection_add_def distinct_update)
  then have ih: "map fst (repos (foldl RepoCollection_add (RepoCollection_add c rp) rps)) =
       rev (remdups (rev (map fst (repos (RepoCollection_add c rp)) @ map name rps)))"
    by (rule Cons.IH)
  show ?case
  proof (cases "name rp \<in> set (map fst (repos c))")
    case False
    with ih show ?thesis by (simp add: keys_after_add)
  next
    case True
    then have "name rp \<in> set (rev (map fst (repos c)))"
      by simp
    then have "remdups (rev (map name rps) @ name rp # rev (map fst (repos c))) =
               remdups (rev (map name rps) @ rev (map fst (repos c)))"
      by (rule remdups_drop_earlier)
    with ih True show ?thesis by (simp add: keys_after_add)
  qed
qed

lemma length_join:
  "length (join sep xs) = sum_list (map length xs) + length sep * (length xs - 1)"
  by (induction sep xs rule: join.induct) simp_all

lemma descriptions_longer:
  "sum_list (map length (map PkgRepo_str rps)) =
     sum_list (map length (map name rps)) + sum_list (map length (map url rps)) + 16 * length rps"
  by (induction rps) (simp_all add: PkgRepo_str_def)

lemma join_names_shorter:
  assumes "rps \<noteq> []"
  shows "length (join sep (map name rps)) < length (join sep (map PkgRepo_str rps))"
proof -
  have "0 < length rps" using assms by simp
  with descriptions_longer [of rps]
  have "sum_list (map length (map name rps)) < sum_list (map length (map PkgRepo_str rps))"
    by linarith
  then show ?thesis by (simp add: length_join)
qed

section \<open>The claims\<close>

subsection \<open>C9: the empty collection\<close>

text \<open>
  C9. For a collection with no registered repositories, \<^verbatim>\<open>exists(p)\<close> returns \<^verbatim>\<open>False\<close>
  for every package name, and \<^verbatim>\<open>search(t)\<close> and \<^verbatim>\<open>list()\<close> return the empty mapping
  for every term; no repository operation runs, so no HTTP request is made: the list of
  requested URLs is unchanged, and the only trace is the one line that \<^verbatim>\<open>exists\<close> logs.
\<close>

theorem empty_collection:
  "repos c = [] \<Longrightarrow>
     RepoCollection_exists c p w =
       (Inr ReturnFalse, logger_info (''Package '' @ p @ '' does not exist in any repos.'') w)
   \<and> requests (snd (RepoCollection_exists c p w)) = requests w
   \<and> RepoCollection_search c t w = (Inr [], w)
   \<and> RepoCollection_list c w = (Inr [], w)"
  by (simp add: RepoCollection_exists_def RepoCollection_search_def RepoCollection_list_def
        repos_values_def)

theorem empty_collection_witness:
  "repos RepoCollection_init = []
   \<and> RepoCollection_exists RepoCollection_init ''foo'' example_world =
       (Inr ReturnFalse, logger_info ''Package foo does not exist in any repos.'' example_world)
   \<and> requests (snd (RepoCollection_exists RepoCollection_init ''foo'' example_world)) = []
   \<and> RepoCollection_search RepoCollection_init ''foo'' example_world = (Inr [], example_world)
   \<and> RepoCollection_list RepoCollection_init example_world = (Inr [], example_world)"
  using empty_collection [of RepoCollection_init "''foo''" example_world "''foo''"]
  by (simp add: RepoCollection_init_def example_world_def)

subsection \<open>C5: what the existence check of a repository reports\<close>

text \<open>
  C5, as the code has it. \<^verbatim>\<open>PkgRepo.exists\<close> returns \<^verbatim>\<open>False\<close> exactly when the
  endpoint answers with status 404, and when no response arrives the exception of the
  HTTP client reaches the caller: a failed request is never reported as \<^verbatim>\<open>False\<close>.
\<close>

theorem exists_false_iff_404:
  "(fst (PkgRepo_exists r p w) = Inr False \<longleftrightarrow>
      (\<exists>resp. remote w (pkg_url r p) = Inr resp \<and> status_code resp = 404))
   \<and> (\<forall>m. remote w (pkg_url r p) = Inl m \<longrightarrow>
          fst (PkgRepo_exists r p w) = Inl (RequestException m))"
  by (auto simp add: fst_PkgRepo_exists split: sum.splits)

theorem exists_false_iff_404_witness:
  "remote example_world (pkg_url repo_C ''bar'') = Inl ''connection refused''
   \<and> fst (PkgRepo_exists repo_C ''bar'' example_world) = Inl (RequestException ''connection refused'')
   \<and> remote example_world (pkg_url repo_A ''nope'') = Inr \<lparr>status_code = 404, json_body = None\<rparr>
   \<and> fst (PkgRepo_exists repo_A ''nope'' example_world) = Inr False"
  using exists_false_iff_404 [of repo_C "''bar''" example_world]
        exists_false_iff_404 [of repo_A "''nope''" example_world]
  by (simp add: example_world_def example_remote_def pkg_url_def repo_A_def repo_C_def)

text \<open>
  C5 as written also wants every other failure, a status such as 500 or a body that is
  not well-formed, to reach the caller as an error. The code looks at nothing but
  the status 404: repository \<open>B\<close> answers the lookup of \<open>bar\<close> with status 500 and no
  JSON body, and \<^verbatim>\<open>exists\<close> returns \<^verbatim>\<open>True\<close>.
\<close>

theorem exists_500_counterexample:
  "remote example_world (pkg_url repo_B ''bar'') = Inr \<lparr>status_code = 500, json_body = None\<rparr>
   \<and> fst (PkgRepo_exists repo_B ''bar'' example_world) = Inr True"
  by (simp add: fst_PkgRepo_exists example_world_def example_remote_def pkg_url_def repo_B_def)

subsection \<open>C7: fetching the metadata of a package\<close>

text \<open>
  C7. \<^verbatim>\<open>PkgRepo.get(p)\<close> fails with the exception \<^verbatim>\<open>Package p does not exist!\<close> if and
  only if \<^verbatim>\<open>exists(p)\<close> is \<^verbatim>\<open>False\<close>. When \<^verbatim>\<open>exists(p)\<close> is \<^verbatim>\<open>True\<close> it requests the
  document of the package a second time and returns the parsed body of the response, or
  fails with the decoding error when the body is not well-formed JSON.
\<close>

theorem get_after_exists:
  "(fst (PkgRepo_get r p w) = Inl (Exception (''Package '' @ p @ '' does not exist!'')) \<longleftrightarrow>
      fst (PkgRepo_exists r p w) = Inr False)
   \<and> (fst (PkgRepo_exists r p w) = Inr True \<longrightarrow>
        requests (snd (PkgRepo_get r p w)) = requests w @ [pkg_url r p, pkg_url r p]
        \<and> (\<exists>resp. remote w (pkg_url r p) = Inr resp
             \<and> fst (PkgRepo_get r p w) =
                 (case json_body resp of None \<Rightarrow> Inl JSONDecodeError | Some data \<Rightarrow> Inr data)))"
  by (auto simp add: fst_PkgRepo_get fst_PkgRepo_exists requests_PkgRepo_get split: sum.splits option.splits)

theorem get_after_exists_witness:
  "fst (PkgRepo_exists repo_A ''foo'' example_world) = Inr True
   \<and> requests (snd (PkgRepo_get repo_A ''foo'' example_world)) =
       [''http://a/x/packages/foo.json'', ''http://a/x/packages/foo.json'']
   \<and> fst (PkgRepo_get repo_A ''foo'' example_world) = Inr (JObject [(''name'', JString ''foo'')])
   \<and> fst (PkgRepo_exists repo_B ''foo'' example_world) = Inr True
   \<and> fst (PkgRepo_get repo_B ''foo'' example_world) = Inl JSONDecodeError
   \<and> fst (PkgRepo_exists repo_A ''nope'' example_world) = Inr False
   \<and> fst (PkgRepo_get repo_A ''nope'' example_world) = Inl (Exception ''Package nope does not exist!'')"
  using get_after_exists [of repo_A "''foo''" example_world]
        get_after_exists [of repo_B "''foo''" example_world]
        get_after_exists [of repo_A "''nope''" example_world]
  by (simp add: fst_PkgRepo_exists example_world_def example_remote_def pkg_url_def repo_A_def repo_B_def)

subsection \<open>C4: fetching from a named repository\<close>

text \<open>
  C4. \<^verbatim>\<open>RepoCollection.get(p, r)\<close> fails with the exception \<^verbatim>\<open>Repo r does not exist!\<close> if
  and only if \<open>r\<close> is not a key of the mapping (and then nothing else happens); otherwise it
  is the call \<^verbatim>\<open>get(p)\<close> on the repository registered under \<open>r\<close>, with the same result
  and the same effects.
\<close>

theorem collection_get:
  "(fst (RepoCollection_get c p r w) = Inl (Exception (''Repo '' @ r @ '' does not exist!''))
      \<longleftrightarrow> r \<notin> fst ` set (repos c))
   \<and> (r \<notin> fst ` set (repos c) \<longrightarrow> snd (RepoCollection_get c p r w) = w)
   \<and> (\<forall>rp. map_of (repos c) r = Some rp \<longrightarrow> RepoCollection_get c p r w = PkgRepo_get rp p w)"
proof (cases "map_of (repos c) r")
  case None
  then have "r \<notin> fst ` set (repos c)"
    by (simp add: map_of_eq_None_iff)
  with None show ?thesis
    by (simp add: RepoCollection_get_def)
next
  case (Some rp)
  then have "r \<in> fst ` set (repos c)"
    by (metis map_of_eq_None_iff option.distinct(1))
  with Some show ?thesis
    using PkgRepo_get_not_repo_error [of rp p w r]
    by (simp add: RepoCollection_get_def)
qed

theorem collection_get_witness:
  "map_of (repos (load_repos [(''A'', ''http://a/x''), (''B'', ''http://b/y'')])) ''A'' = Some repo_A
   \<and> RepoCollection_get (load_repos [(''A'', ''http://a/x''), (''B'', ''http://b/y'')]) ''foo'' ''A'' example_world
       = PkgRepo_get repo_A ''foo'' example_world
   \<and> ''Z'' \<notin> fst ` set (repos (load_repos [(''A'', ''http://a/x''), (''B'', ''http://b/y'')]))
   \<and> RepoCollection_get (load_repos [(''A'', ''http://a/x''), (''B'', ''http://b/y'')]) ''foo'' ''Z'' example_world
       = (Inl (Exception ''Repo Z does not exist!''), example_world)"
  using collection_get [of "load_repos [(''A'', ''http://a/x''), (''B'', ''http://b/y'')]" "''foo''" "''A''" example_world]
        collection_get [of "load_repos [(''A'', ''http://a/x''), (''B'', ''http://b/y'')]" "''foo''" "''Z''" example_world]
  by (simp add: load_repos_def RepoCollection_add_def RepoCollection_init_def repo_A_def
        RepoCollection_get_def)

subsection \<open>C1: in which repositories a package exists\<close>

text \<open>
  C1, as the code has it. When the existence check of every registered repository
  returns, \<^verbatim>\<open>RepoCollection.exists(p)\<close> returns \<^verbatim>\<open>False\<close> if and only if no repository
  reports that \<open>p\<close> exists; otherwise it returns the list, which is not empty, of the names
  of exactly the repositories that report \<open>p\<close>, in the order of the mapping. When the
  check of some repository raises, and those before it return, the call raises that
  exception and returns neither \<^verbatim>\<open>False\<close> nor a list.
\<close>

theorem collection_exists:
  "((\<forall>rp \<in> set (repos_values c). \<exists>b. fst (PkgRepo_exists rp p w) = Inr b) \<longrightarrow>
      (fst (RepoCollection_exists c p w) = Inr ReturnFalse \<longleftrightarrow>
         (\<forall>rp \<in> set (repos_values c). fst (PkgRepo_exists rp p w) \<noteq> Inr True))
    \<and> (fst (RepoCollection_exists c p w) \<noteq> Inr ReturnFalse \<longrightarrow>
         map name (filter (\<lambda>rp. fst (PkgRepo_exists rp p w) = Inr True) (repos_values c)) \<noteq> []
       \<and> fst (RepoCollection_exists c p w) =
           Inr (ReturnRepoNames
             (map name (filter (\<lambda>rp. fst (PkgRepo_exists rp p w) = Inr True) (repos_values c))))))
   \<and> (repos_values c = pre @ rp # post
      \<and> (\<forall>q \<in> set pre. \<exists>b. fst (PkgRepo_exists q p w) = Inr b)
      \<and> fst (PkgRepo_exists rp p w) = Inl e
     \<longrightarrow> fst (RepoCollection_exists c p w) = Inl e)"
proof (intro conjI impI)
  assume a: "\<forall>rp \<in> set (repos_values c). \<exists>b. fst (PkgRepo_exists rp p w) = Inr b"
  have loop: "fst (exists_loop (repos_values c) p [] w) =
      Inr (map name (filter (\<lambda>rp. fst (PkgRepo_exists rp p w) = Inr True) (repos_values c)))"
    using fst_exists_loop_answers [OF a, of w "[]"] by simp
  show "fst (RepoCollection_exists c p w) = Inr ReturnFalse \<longleftrightarrow>
         (\<forall>rp \<in> set (repos_values c). fst (PkgRepo_exists rp p w) \<noteq> Inr True)"
    by (simp add: fst_RepoCollection_exists loop filter_empty_conv)
  assume b: "fst (RepoCollection_exists c p w) \<noteq> Inr ReturnFalse"
  then show "map name (filter (\<lambda>rp. fst (PkgRepo_exists rp p w) = Inr True) (repos_values c)) \<noteq> []"
    by (simp add: fst_RepoCollection_exists loop split: if_splits)
  from b show "fst (RepoCollection_exists c p w) =
           Inr (ReturnRepoNames
             (map name (filter (\<lambda>rp. fst (PkgRepo_exists rp p w) = Inr True) (repos_values c))))"
    by (simp add: fst_RepoCollection_exists loop split: if_splits)
next
  assume f: "repos_values c = pre @ rp # post
      \<and> (\<forall>q \<in> set pre. \<exists>b. fst (PkgRepo_exists q p w) = Inr b)
      \<and> fst (PkgRepo_exists rp p w) = Inl e"
  then have "fst (exists_loop (pre @ rp # post) p [] w) = Inl e"
    by (intro fst_exists_loop_fail [where ?w0.0 = w]) simp_all
  with f show "fst (RepoCollection_exists c p w) = Inl e"
    by (simp add: fst_RepoCollection_exists)
qed

theorem collection_exists_witness:
  "repos_values (load_repos [(''A'', ''http://a/x''), (''B'', ''http://b/y'')]) = [repo_A, repo_B]
   \<and> fst (PkgRepo_exists repo_A ''foo'' example_world) = Inr True
   \<and> fst (PkgRepo_exists repo_B ''foo'' example_world) = Inr True
   \<and> fst (RepoCollection_exists (load_repos [(''A'', ''http://a/x''), (''B'', ''http://b/y'')])
            ''foo'' example_world) = Inr (ReturnRepoNames [''A'', ''B''])
   \<and> fst (PkgRepo_exists repo_A ''nope'' example_world) = Inr False
   \<and> fst (PkgRepo_exists repo_B ''nope'' example_world) = Inr False
   \<and> fst (RepoCollection_exists (load_repos [(''A'', ''http://a/x''), (''B'', ''http://b/y'')])
            ''nope'' example_world) = Inr ReturnFalse
   \<and> repos_values (load_repos [(''A'', ''http://a/x''), (''C'', ''http://c/z''), (''B'', ''http://b/y'')])
       = [repo_A] @ repo_C # [repo_B]
   \<and> fst (PkgRepo_exists repo_C ''foo'' example_world) = Inl (RequestException ''connection refused'')
   \<and> fst (RepoCollection_exists
        (load_repos [(''A'', ''http://a/x''), (''C'', ''http://c/z''), (''B'', ''http://b/y'')])
        ''foo'' example_world) = Inl (RequestException ''connection refused'')"
proof -
  let ?c = "load_repos [(''A'', ''http://a/x''), (''B'', ''http://b/y'')]"
  let ?d = "load_repos [(''A'', ''http://a/x''), (''C'', ''http://c/z''), (''B'', ''http://b/y'')]"
  have v: "repos_values ?c = [repo_A, repo_B]" "repos_values ?d = [repo_A] @ repo_C # [repo_B]"
    by (simp_all add: example_values)
  have a: "fst (PkgRepo_exists repo_A ''foo'' example_world) = Inr True"
          "fst (PkgRepo_exists repo_B ''foo'' example_world) = Inr True"
          "fst (PkgRepo_exists repo_A ''nope'' example_world) = Inr False"
          "fst (PkgRepo_exists repo_B ''nope'' example_world) = Inr False"
          "fst (PkgRepo_exists repo_C ''foo'' example_world) = Inl (RequestException ''connection refused'')"
    by (simp_all add: fst_PkgRepo_exists pkg_url_def example_world_def example_remote_def
          repo_A_def repo_B_def repo_C_def)
  have h1: "\<forall>rp \<in> set (repos_values ?c). \<exists>b. fst (PkgRepo_exists rp ''foo'' example_world) = Inr b"
    by (auto simp add: v a)
  have h2: "\<forall>rp \<in> set (repos_values ?c). \<exists>b. fst (PkgRepo_exists rp ''nope'' example_world) = Inr b"
    by (auto simp add: v a)
  have h3: "repos_values ?d = [repo_A] @ repo_C # [repo_B]
      \<and> (\<forall>q \<in> set [repo_A]. \<exists>b. fst (PkgRepo_exists q ''foo'' example_world) = Inr b)
      \<and> fst (PkgRepo_exists repo_C ''foo'' example_world) = Inl (RequestException ''connection refused'')"
    by (auto simp add: v a)
  have n: "name repo_A = ''A''" "name repo_B = ''B''"
    by (simp_all add: repo_A_def repo_B_def)
  have foo: "fst (RepoCollection_exists ?c ''foo'' example_world) = Inr (ReturnRepoNames [''A'', ''B''])"
    using collection_exists [of ?c "''foo''" example_world] h1 by (simp add: v a n)
  have nope: "fst (RepoCollection_exists ?c ''nope'' example_world) = Inr ReturnFalse"
    using collection_exists [of ?c "''nope''" example_world] h2 by (simp add: v a n)
  have down: "fst (RepoCollection_exists ?d ''foo'' example_world) = Inl (RequestException ''connection refused'')"
    using collection_exists [of ?d "''foo''" example_world "[repo_A]" repo_C "[repo_B]"
            "RequestException ''connection refused''"] h3
    by blast
  show ?thesis
    using v a foo nope down by simp
qed

text \<open>
  C1 as written gives \<^verbatim>\<open>False\<close> or the list of names for every collection. With only the
  unreachable repository \<open>C\<close> registered, no repository reports that \<open>foo\<close> exists, and
  the call does not return \<^verbatim>\<open>False\<close>: it raises. With \<open>A\<close> and \<open>C\<close> registered, \<open>A\<close>
  reports \<open>foo\<close>, and the call does not return the list with \<open>A\<close>: it raises.
\<close>

theorem collection_exists_unreachable_counterexample:
  "repos_values (load_repos [(''C'', ''http://c/z'')]) = [repo_C]
   \<and> fst (PkgRepo_exists repo_C ''foo'' example_world) = Inl (RequestException ''connection refused'')
   \<and> fst (RepoCollection_exists (load_repos [(''C'', ''http://c/z'')]) ''foo'' example_world)
       = Inl (RequestException ''connection refused'')
   \<and> repos_values (load_repos [(''A'', ''http://a/x''), (''C'', ''http://c/z'')]) = [repo_A, repo_C]
   \<and> fst (PkgRepo_exists repo_A ''foo'' example_world) = Inr True
   \<and> fst (RepoCollection_exists (load_repos [(''A'', ''http://a/x''), (''C'', ''http://c/z'')])
        ''foo'' example_world) = Inl (RequestException ''connection refused'')"
  by (simp add: fst_RepoCollection_exists exists_loop_Cons Let_def load_repos_def
        RepoCollection_add_def RepoCollection_init_def repos_values_def
        fst_PkgRepo_exists pkg_url_def example_world_def example_remote_def
        repo_A_def repo_C_def
        del: exists_loop.simps(2))

subsection \<open>C3: searching one repository\<close>

text \<open>
  C3, as the code has it. When the catalog document is a JSON array of package names, or
  a JSON object keyed by package name, \<^verbatim>\<open>PkgRepo.search(t)\<close> returns exactly the names
  that contain \<open>t\<close> as a contiguous substring (\<^const>\<open>sublist\<close>: compared character by
  character, at any position), in catalog order, and for the empty term it returns every
  name of the catalog. When the catalog is an array, that is the value \<^verbatim>\<open>PkgRepo.list()\<close>
  returns.
\<close>

theorem search_filters_catalog:
  assumes "remote w (all_url r) = Inr resp" and "json_body resp = Some cat"
  shows "(cat = JArray (map JString ns) \<or> (\<exists>kvs. cat = JObject kvs \<and> ns = map fst kvs) \<longrightarrow>
            fst (PkgRepo_search r t w) = Inr (map JString (filter (sublist t) ns))
          \<and> fst (PkgRepo_search r [] w) = Inr (map JString ns))
       \<and> (cat = JArray (map JString ns) \<longrightarrow>
            map_sum id JArray (fst (PkgRepo_search r [] w)) = fst (PkgRepo_list r w))"
  using assms
  by (auto simp add: fst_PkgRepo_search fst_PkgRepo_list search_loop_strings search_loop_keys)

theorem search_filters_catalog_witness:
  "remote example_world (all_url repo_A) =
     Inr \<lparr>status_code = 200,
          json_body = Some (JArray (map JString [''foo'', ''foobar'', ''baz'']))\<rparr>
   \<and> fst (PkgRepo_search repo_A ''foo'' example_world) = Inr [JString ''foo'', JString ''foobar'']
   \<and> fst (PkgRepo_search repo_A '''' example_world) =
       Inr [JString ''foo'', JString ''foobar'', JString ''baz'']
   \<and> fst (PkgRepo_list repo_A example_world) =
       Inr (JArray [JString ''foo'', JString ''foobar'', JString ''baz''])
   \<and> remote example_world (all_url repo_B) =
     Inr \<lparr>status_code = 200,
          json_body = Some (JObject [(''foo'', JObject []), (''qux'', JObject [])])\<rparr>
   \<and> fst (PkgRepo_search repo_B ''u'' example_world) = Inr [JString ''qux'']"
proof -
  have a: "remote example_world (all_url repo_A) =
     Inr \<lparr>status_code = 200,
          json_body = Some (JArray (map JString [''foo'', ''foobar'', ''baz'']))\<rparr>"
    by (simp add: all_url_def example_world_def example_remote_def repo_A_def)
  have b: "remote example_world (all_url repo_B) =
     Inr \<lparr>status_code = 200,
          json_body = Some (JObject [(''foo'', JObject []), (''qux'', JObject [])])\<rparr>"
    by (simp add: all_url_def example_world_def example_remote_def repo_B_def)
  show ?thesis
    using search_filters_catalog [OF a, of "JArray (map JString [''foo'', ''foobar'', ''baz''])"
            "[''foo'', ''foobar'', ''baz'']" "''foo''"]
          search_filters_catalog [OF b, of "JObject [(''foo'', JObject []), (''qux'', JObject [])]"
            "[''foo'', ''qux'']" "''u''"]
          a b
    by (simp add: sublist_code fst_PkgRepo_list)
qed

text \<open>
  C3 as written says that the search for the empty term equals \<^verbatim>\<open>list()\<close> for every
  repository. For a catalog that is a JSON object, \<^verbatim>\<open>list()\<close> returns the object itself,
  while the search returns the list of its keys: repository \<open>B\<close>.
\<close>

theorem search_empty_term_mapping_counterexample:
  "remote example_world (all_url repo_B) =
     Inr \<lparr>status_code = 200,
          json_body = Some (JObject [(''foo'', JObject []), (''qux'', JObject [])])\<rparr>
   \<and> fst (PkgRepo_search repo_B '''' example_world) = Inr [JString ''foo'', JString ''qux'']
   \<and> fst (PkgRepo_list repo_B example_world) =
       Inr (JObject [(''foo'', JObject []), (''qux'', JObject [])])"
  by (simp add: fst_PkgRepo_search fst_PkgRepo_list all_url_def example_world_def
        example_remote_def repo_B_def)

subsection \<open>C6: searching all repositories\<close>

text \<open>
  C6, as the code has it. \<^verbatim>\<open>RepoCollection.search\<close> is all or nothing. When the search of
  every registered repository succeeds (and the repositories have different names), it
  returns the mapping from each repository's name to that repository's results, in the
  order of the mapping. When the search of some repository fails, and those before it
  succeed, the whole call fails with that repository's error and returns no mapping.
\<close>

theorem collection_search_all_or_nothing:
  "((\<forall>rp \<in> set (repos_values c). fst (PkgRepo_search rp t w) = Inr (f rp))
      \<and> distinct (map name (repos_values c))
     \<longrightarrow> fst (RepoCollection_search c t w) = Inr (map (\<lambda>rp. (name rp, f rp)) (repos_values c)))
   \<and> (repos_values c = pre @ rp # post
      \<and> (\<forall>q \<in> set pre. \<exists>xs. fst (PkgRepo_search q t w) = Inr xs)
      \<and> fst (PkgRepo_search rp t w) = Inl e
     \<longrightarrow> fst (RepoCollection_search c t w) = Inl e)"
proof (intro conjI impI)
  assume a: "(\<forall>rp \<in> set (repos_values c). fst (PkgRepo_search rp t w) = Inr (f rp))
      \<and> distinct (map name (repos_values c))"
  then have "fst (collection_search_loop (repos_values c) t [] w) =
           Inr (foldl (\<lambda>m rp. AList.update (name rp) (f rp) m) [] (repos_values c))"
    by (intro fst_collection_search_loop_ok) simp_all
  moreover have "foldl (\<lambda>m rp. AList.update (name rp) (f rp) m) [] (repos_values c) =
           [] @ map (\<lambda>rp. (name rp, f rp)) (repos_values c)"
    using a by (intro foldl_update_fresh) simp_all
  ultimately show "fst (RepoCollection_search c t w) = Inr (map (\<lambda>rp. (name rp, f rp)) (repos_values c))"
    by (simp add: RepoCollection_search_def)
next
  assume b: "repos_values c = pre @ rp # post
      \<and> (\<forall>q \<in> set pre. \<exists>xs. fst (PkgRepo_search q t w) = Inr xs)
      \<and> fst (PkgRepo_search rp t w) = Inl e"
  then have "fst (collection_search_loop (pre @ rp # post) t [] w) = Inl e"
    by (intro fst_collection_search_loop_fail [where ?w0.0 = w]) simp_all
  with b show "fst (RepoCollection_search c t w) = Inl e"
    by (simp add: RepoCollection_search_def)
qed

theorem collection_search_all_or_nothing_witness:
  "repos_values (load_repos [(''A'', ''http://a/x''), (''B'', ''http://b/y'')]) = [repo_A, repo_B]
   \<and> fst (PkgRepo_search repo_A ''foo'' example_world) = Inr [JString ''foo'', JString ''foobar'']
   \<and> fst (PkgRepo_search repo_B ''foo'' example_world) = Inr [JString ''foo'']
   \<and> distinct (map name [repo_A, repo_B])
   \<and> fst (RepoCollection_search (load_repos [(''A'', ''http://a/x''), (''B'', ''http://b/y'')])
        ''foo'' example_world) =
       Inr [(''A'', [JString ''foo'', JString ''foobar'']), (''B'', [JString ''foo''])]
   \<and> repos_values (load_repos [(''A'', ''http://a/x''), (''C'', ''http://c/z''), (''B'', ''http://b/y'')])
       = [repo_A] @ repo_C # [repo_B]
   \<and> fst (PkgRepo_search repo_C ''foo'' example_world) = Inl (RequestException ''connection refused'')
   \<and> fst (RepoCollection_search
        (load_repos [(''A'', ''http://a/x''), (''C'', ''http://c/z''), (''B'', ''http://b/y'')])
        ''foo'' example_world) = Inl (RequestException ''connection refused'')"
proof -
  have ne: "repo_B \<noteq> repo_A"
    by (simp add: repo_A_def repo_B_def)
  have n: "name repo_A = ''A''" "name repo_B = ''B''"
    by (simp_all add: repo_A_def repo_B_def)
  show ?thesis
    using collection_search_all_or_nothing
            [of "load_repos [(''A'', ''http://a/x''), (''B'', ''http://b/y'')]" "''foo''" example_world
                "\<lambda>rp. if rp = repo_A then [JString ''foo'', JString ''foobar''] else [JString ''foo'']"]
          collection_search_all_or_nothing
            [of "load_repos [(''A'', ''http://a/x''), (''C'', ''http://c/z''), (''B'', ''http://b/y'')]"
                "''foo''" example_world _ "[repo_A]" repo_C "[repo_B]"
                "RequestException ''connection refused''"]
    by (simp add: example_values example_searches ne n)
qed

text \<open>
  C6 as written wants the results of the reachable repositories returned, with the slot of
  the failing one marked. With \<open>A\<close>, \<open>C\<close> and \<open>B\<close> registered and \<open>C\<close> unreachable, the
  searches of \<open>A\<close> and \<open>B\<close> on their own succeed, but the search of the collection raises
  the exception of \<open>C\<close>.
\<close>

theorem collection_search_unreachable_counterexample:
  "fst (PkgRepo_search repo_A ''foo'' example_world) = Inr [JString ''foo'', JString ''foobar'']
   \<and> fst (PkgRepo_search repo_B ''foo'' example_world) = Inr [JString ''foo'']
   \<and> fst (RepoCollection_search
        (load_repos [(''A'', ''http://a/x''), (''C'', ''http://c/z''), (''B'', ''http://b/y'')])
        ''foo'' example_world) = Inl (RequestException ''connection refused'')"
  using fst_collection_search_loop_fail [of "[repo_A]" "''foo''" example_world repo_C
          "RequestException ''connection refused''" example_world "[repo_B]" "[]"]
  by (simp add: RepoCollection_search_def example_values example_searches)

subsection \<open>C8: registering repositories\<close>

text \<open>
  C8. Every sequence of \<^verbatim>\<open>add\<close> calls preserves the invariant that each repository of
  the mapping is registered under its own name; in particular the invariant holds (and the
  keys are unique) after any sequence of calls on a new collection. Adding a repository
  makes its name map to it, whatever was registered under that name before, and leaves
  the entry of every other name unchanged: after a sequence of calls a name maps to the
  last repository added under it, or to what it mapped to before when none was.
\<close>

theorem add_last_write_wins:
  "((\<forall>kv \<in> set (repos c). name (snd kv) = fst kv) \<longrightarrow>
      (\<forall>kv \<in> set (repos (foldl RepoCollection_add c rps)). name (snd kv) = fst kv))
   \<and> (\<forall>kv \<in> set (repos (foldl RepoCollection_add RepoCollection_init rps)). name (snd kv) = fst kv)
   \<and> distinct (map fst (repos (foldl RepoCollection_add RepoCollection_init rps)))
   \<and> map_of (repos (RepoCollection_add c rp)) (name rp) = Some rp
   \<and> (\<forall>k. k \<noteq> name rp \<longrightarrow> map_of (repos (RepoCollection_add c rp)) k = map_of (repos c) k)
   \<and> map_of (repos (foldl RepoCollection_add c rps)) k =
       (case find (\<lambda>rp. name rp = k) (rev rps) of
          Some rp \<Rightarrow> Some rp
        | None \<Rightarrow> map_of (repos c) k)"
proof (intro conjI)
  show "(\<forall>kv \<in> set (repos c). name (snd kv) = fst kv) \<longrightarrow>
      (\<forall>kv \<in> set (repos (foldl RepoCollection_add c rps)). name (snd kv) = fst kv)"
    using adds_keep_names [of c rps] by blast
  show "\<forall>kv \<in> set (repos (foldl RepoCollection_add RepoCollection_init rps)). name (snd kv) = fst kv"
    by (rule adds_keep_names) (simp add: RepoCollection_init_def)
  show "distinct (map fst (repos (foldl RepoCollection_add RepoCollection_init rps)))"
    by (rule adds_keep_distinct) (simp add: RepoCollection_init_def)
  show "map_of (repos (RepoCollection_add c rp)) (name rp) = Some rp"
    by (simp add: lookup_after_add)
  show "\<forall>k. k \<noteq> name rp \<longrightarrow> map_of (repos (RepoCollection_add c rp)) k = map_of (repos c) k"
    by (simp add: lookup_after_add)
  show "map_of (repos (foldl RepoCollection_add c rps)) k =
       (case find (\<lambda>rp. name rp = k) (rev rps) of
          Some rp \<Rightarrow> Some rp
        | None \<Rightarrow> map_of (repos c) k)"
    by (rule lookup_after_adds)
qed


theorem add_last_write_wins_witness:
  "repos (load_repos [(''A'', ''http://a/x''), (''B'', ''http://b/y'')]) =
       [(''A'', repo_A), (''B'', repo_B)]
   \<and> name repo_A = ''A'' \<and> name repo_B = ''B'' \<and> name repo_C = ''C''
   \<and> repos (foldl RepoCollection_add (load_repos [(''A'', ''http://a/x''), (''B'', ''http://b/y'')])
              [\<lparr>name = ''A'', url = ''http://mirror/x''\<rparr>, repo_C]) =
       [(''A'', \<lparr>name = ''A'', url = ''http://mirror/x''\<rparr>), (''B'', repo_B), (''C'', repo_C)]
   \<and> ''B'' \<noteq> name \<lparr>name = ''A'', url = ''http://mirror/x''\<rparr>
   \<and> map_of (repos (RepoCollection_add (load_repos [(''A'', ''http://a/x''), (''B'', ''http://b/y'')])
                      \<lparr>name = ''A'', url = ''http://mirror/x''\<rparr>)) ''B'' = Some repo_B
   \<and> map_of (repos (RepoCollection_add (load_repos [(''A'', ''http://a/x''), (''B'', ''http://b/y'')])
                      \<lparr>name = ''A'', url = ''http://mirror/x''\<rparr>)) ''A''
       = Some \<lparr>name = ''A'', url = ''http://mirror/x''\<rparr>"
  using add_last_write_wins
          [of "load_repos [(''A'', ''http://a/x''), (''B'', ''http://b/y'')]"
              "[\<lparr>name = ''A'', url = ''http://mirror/x''\<rparr>, repo_C]"
              "\<lparr>name = ''A'', url = ''http://mirror/x''\<rparr>" "''B''"]
  by (simp add: load_repos_def RepoCollection_add_def RepoCollection_init_def
        repo_A_def repo_B_def repo_C_def)

subsection \<open>C10: the string of a collection\<close>

text \<open>
  C10. The string of a collection is \<^verbatim>\<open>Repo Collection: \<close> followed by the keys of the
  mapping joined by a comma and a space. After a sequence of registrations the keys are
  the names in the order in which each was registered first. The string holds the bare
  names: for a collection that is not empty it differs from the one built from the
  descriptions \<^verbatim>\<open>Package Repo name @ url\<close> of the repositories.
\<close>

theorem collection_str_names:
  "RepoCollection_str c = ''Repo Collection: '' @ join '', '' (map fst (repos c))
   \<and> map fst (repos (foldl RepoCollection_add RepoCollection_init rps)) =
       rev (remdups (rev (map name rps)))
   \<and> (repos c \<noteq> [] \<and> (\<forall>kv \<in> set (repos c). name (snd kv) = fst kv) \<longrightarrow>
        RepoCollection_str c \<noteq>
          ''Repo Collection: '' @ join '', '' (map PkgRepo_str (repos_values c)))"
proof (intro conjI impI)
  show "RepoCollection_str c = ''Repo Collection: '' @ join '', '' (map fst (repos c))"
    by (simp add: RepoCollection_str_def)
  show "map fst (repos (foldl RepoCollection_add RepoCollection_init rps)) =
       rev (remdups (rev (map name rps)))"
    using keys_after_adds [of RepoCollection_init rps] by (simp add: RepoCollection_init_def)
next
  assume a: "repos c \<noteq> [] \<and> (\<forall>kv \<in> set (repos c). name (snd kv) = fst kv)"
  then have keys: "map fst (repos c) = map name (repos_values c)"
    by (simp add: repos_values_def)
  have "repos_values c \<noteq> []"
    using a by (simp add: repos_values_def)
  then have "length (join '', '' (map name (repos_values c))) <
             length (join '', '' (map PkgRepo_str (repos_values c)))"
    by (rule join_names_shorter)
  then have "join '', '' (map name (repos_values c)) \<noteq> join '', '' (map PkgRepo_str (repos_values c))"
    by auto
  then show "RepoCollection_str c \<noteq>
          ''Repo Collection: '' @ join '', '' (map PkgRepo_str (repos_values c))"
    by (simp add: RepoCollection_str_def keys)
qed

theorem collection_str_names_witness:
  "repos (load_repos [(''A'', ''http://a/x''), (''B'', ''http://b/y''), (''A'', ''http://mirror/x'')])
     = [(''A'', \<lparr>name = ''A'', url = ''http://mirror/x''\<rparr>), (''B'', repo_B)]
   \<and> name repo_B = ''B''
   \<and> RepoCollection_str (load_repos [(''A'', ''http://a/x''), (''B'', ''http://b/y''), (''A'', ''http://mirror/x'')])
       = ''Repo Collection: A, B''
   \<and> ''Repo Collection: '' @ join '', '' (map PkgRepo_str (repos_values
         (load_repos [(''A'', ''http://a/x''), (''B'', ''http://b/y''), (''A'', ''http://mirror/x'')])))
       = ''Repo Collection: Package Repo A @ http://mirror/x, Package Repo B @ http://b/y''
   \<and> RepoCollection_str (load_repos [(''A'', ''http://a/x''), (''B'', ''http://b/y''), (''A'', ''http://mirror/x'')])
       \<noteq> ''Repo Collection: '' @ join '', '' (map PkgRepo_str (repos_values
         (load_repos [(''A'', ''http://a/x''), (''B'', ''http://b/y''), (''A'', ''http://mirror/x'')])))"
  using collection_str_names
          [of "load_repos [(''A'', ''http://a/x''), (''B'', ''http://b/y''), (''A'', ''http://mirror/x'')]"]
  by (simp add: load_repos_def RepoCollection_add_def RepoCollection_init_def repos_values_def
        PkgRepo_str_def repo_B_def)

end
